theory Spec2Isabelle
  imports Complex_Main "HOL-Library.Word" "HOL-Library.List_Lexorder"
begin

unbundle bit_operations_syntax

section \<open>Data model\<close>

type_synonym byte = "8 word"
type_synonym bytes = "byte list"

text \<open>
  Errors are values. \<open>ErrWaitMemtableSpaceTimeOut\<close> is the package's own error; every
  error handed up by a collaborator (the segmented log, the index, the file system) is
  \<open>ErrExternal\<close> with a tag, and the two end-of-input errors of package io are kept apart
  because the callers test for them.
\<close>

datatype error =
    ErrWaitMemtableSpaceTimeOut
  | ErrNotExist
  | EOF
  | ErrUnexpectedEOF
  | ErrExternal nat

subsection \<open>encoding/binary: varints\<close>

text \<open>
  \<open>binary.PutUvarint\<close> writes seven bits per byte, low group first, and sets the top bit
  of every byte but the last. The model returns the bytes written; their number is the
  count the Go function returns.
\<close>

function PutUvarint :: "64 word \<Rightarrow> bytes" where
  "PutUvarint x =
     (if 0x80 \<le> x then (ucast x OR 0x80) # PutUvarint (drop_bit 7 x) else [ucast x])"
  by pat_completeness auto
termination
proof (relation "measure unat")
  show "wf (measure unat)" by simp
next
  fix x :: "64 word"
  assume "0x80 \<le> x"
  then have "x \<noteq> 0" by auto
  then have "0 < unat x" by (simp add: unat_gt_0)
  then have "unat x div 128 < unat x" by simp
  then show "(drop_bit 7 x, x) \<in> measure unat"
    by (simp add: unat_drop_bit_eq drop_bit_eq_div unat_div)
qed

declare PutUvarint.simps [simp del]

text \<open>
  \<open>binary.PutVarint\<close>: zig-zag, \<open>ux := uint64(x) << 1; if x < 0 { ux = ^ux }\<close>, then
  \<open>PutUvarint\<close>.
\<close>

definition PutVarint :: "64 word \<Rightarrow> bytes" where
  "PutVarint x =
     (let ux = push_bit 1 x;
          ux' = (if x <s 0 then NOT ux else ux)
      in PutUvarint ux')"

text \<open>
  \<open>binary.Uvarint\<close>: the loop over the buffer with its index \<open>i\<close>, accumulator \<open>x\<close> and
  shift \<open>s\<close>; the second component is the number of bytes read, \<open>0\<close> when the buffer ends
  early and \<open>-(i + 1)\<close> on overflow.
\<close>

fun Uvarint_loop :: "nat \<Rightarrow> 64 word \<Rightarrow> nat \<Rightarrow> bytes \<Rightarrow> 64 word \<times> int" where
  "Uvarint_loop i x s [] = (0, 0)"
| "Uvarint_loop i x s (b # bs) =
     (if i = 10 then (0, - (int i + 1))
      else if b < 0x80 then
        (if i = 9 \<and> 1 < b then (0, - (int i + 1))
         else (x OR push_bit s (ucast b), int i + 1))
      else Uvarint_loop (i + 1) (x OR push_bit s (ucast (b AND 0x7f))) (s + 7) bs)"

definition Uvarint :: "bytes \<Rightarrow> 64 word \<times> int" where
  "Uvarint buf = Uvarint_loop 0 0 0 buf"

text \<open>
  \<open>binary.Varint\<close>: \<open>x := int64(ux >> 1); if ux&1 != 0 { x = ^x }\<close>, also when \<open>Uvarint\<close>
  reported an error.
\<close>

definition Varint :: "bytes \<Rightarrow> 64 word \<times> int" where
  "Varint buf =
     (let (ux, n) = Uvarint buf;
          x = drop_bit 1 ux
      in (if ux AND 1 \<noteq> 0 then NOT x else x, n))"

subsection \<open>The memtable value slot\<close>

text \<open>
  \<open>memValue\<close> of the memtable source: \<open>value []byte\<close>, \<open>expiredAt int64\<close>, \<open>typ byte\<close>.
  A nil \<open>value\<close> and an empty one carry the same (no) bytes and \<open>encode\<close> treats them
  alike, so the field is a byte list.
\<close>

record memValue =
  mv_value :: bytes
  mv_expiredAt :: "64 word"
  mv_typ :: byte

text \<open>
  \<open>memValue.encode\<close>: an 11-byte zeroed header receives the tag at index 0 and the varint
  from index 1; \<open>index\<close> counts the header bytes in use; the result is the first \<open>index\<close>
  header bytes followed by the value.
\<close>

definition encode :: "memValue \<Rightarrow> bytes" where
  "encode mv =
     (let head0 = (replicate 11 0)[0 := mv_typ mv];
          vb = PutVarint (mv_expiredAt mv);
          head = take 1 head0 @ vb @ drop (1 + length vb) head0;
          index = 1 + length vb
      in take index head @ mv_value mv)"

text \<open>
  \<open>decodeMemValue\<close>: \<open>buf[0]\<close> and \<open>buf[index:]\<close> panic on a buffer that is too short or
  when \<open>Varint\<close> reports an overflow that makes \<open>index\<close> negative; the panic is \<open>None\<close>.
\<close>

definition decodeMemValue :: "bytes \<Rightarrow> memValue option" where
  "decodeMemValue buf =
     (if buf = [] then None
      else
        let (ex, n) = Varint (drop 1 buf);
            index = 1 + n
        in if index < 0 \<or> int (length buf) < index then None
           else Some \<lparr>mv_value = drop (nat index) buf, mv_expiredAt = ex, mv_typ = hd buf\<rparr>)"

subsection \<open>The memtable\<close>

text \<open>
  \<open>y.ValueStruct\<close> of the skip list library: the fields the sources read or write.
  \<open>memtable.put\<close> fills in \<open>Value\<close> only, which leaves \<open>Meta\<close> and \<open>ExpiresAt\<close> zero.
\<close>

record ValueStruct =
  vs_Meta :: byte
  vs_ExpiresAt :: "64 word"
  vs_Value :: bytes

text \<open>
  The arena skip list is the imported library's, and its keys are versioned: the last eight
  bytes of a key are its version. \<open>bytes.Compare\<close> is the lexicographic order on unsigned
  bytes, as \<open>-1\<close>, \<open>0\<close> or \<open>1\<close>.

  \<^item> \<open>y.CompareKeys\<close> compares \<open>key[:len(key)-8]\<close> and, when these are equal,
    \<open>key[len(key)-8:]\<close>; the slice panics on a key of fewer than eight bytes (\<open>None\<close>).
  \<^item> \<open>y.ParseKey\<close> returns \<open>key[:len(key)-8]\<close>, with the same panic (it returns nil for
    a nil key, which a key read back from the list never is).
  \<^item> \<open>y.SameKey\<close> holds of two keys of the same length that agree before the last eight
    bytes.
\<close>

definition bytesCompare :: "bytes \<Rightarrow> bytes \<Rightarrow> int" where
  "bytesCompare a b = (if a = b then 0 else if a < b then - 1 else 1)"

definition CompareKeys :: "bytes \<Rightarrow> bytes \<Rightarrow> int option" where
  "CompareKeys key1 key2 =
     (if length key1 < 8 \<or> length key2 < 8 then None
      else
        (let cmp = bytesCompare (take (length key1 - 8) key1) (take (length key2 - 8) key2)
         in if cmp \<noteq> 0 then Some cmp
            else Some (bytesCompare (drop (length key1 - 8) key1)
                                    (drop (length key2 - 8) key2))))"

definition ParseKey :: "bytes \<Rightarrow> bytes option" where
  "ParseKey key = (if length key < 8 then None else Some (take (length key - 8) key))"

definition SameKey :: "bytes \<Rightarrow> bytes \<Rightarrow> bool option" where
  "SameKey src dst =
     (if length src \<noteq> length dst then Some False
      else
        (case (ParseKey src, ParseKey dst) of
           (Some a, Some b) \<Rightarrow> Some (a = b)
         | _ \<Rightarrow> None))"

text \<open>
  The list itself is the association list of its nodes in ascending order of
  \<open>CompareKeys\<close>. A search runs from the front and compares the key with each node it
  passes, so it panics as soon as the key or a node met is shorter than eight bytes. (The
  library's search jumps along towers of random height and may pass fewer nodes; the
  outcome is the same for every list the code can build, which is empty, or holds one single
  short key, or holds keys of eight bytes or more only.) The arena's capacity is not
  modelled: \<open>Put\<close> is taken to find room.

  \<^item> \<open>Put\<close> on the empty list compares nothing and stores any key. Otherwise the key goes
    before the first node that is not smaller; on a node that compares equal the value is
    replaced.
  \<^item> \<open>Get\<close> takes the first node that is not smaller than the key and returns its value
    if \<open>SameKey\<close> holds, else the empty \<open>ValueStruct\<close>, whose \<open>Value\<close> is nil (the inner
    \<open>None\<close>). The outer \<open>None\<close> is the panic.
\<close>

type_synonym skiplist = "(bytes \<times> ValueStruct) list"

fun sklPut :: "bytes \<Rightarrow> ValueStruct \<Rightarrow> skiplist \<Rightarrow> skiplist option" where
  "sklPut k v [] = Some [(k, v)]"
| "sklPut k v ((k', v') # rest) =
     (case CompareKeys k k' of
        None \<Rightarrow> None
      | Some cmp \<Rightarrow>
          if cmp = 0 then Some ((k', v) # rest)
          else if cmp < 0 then Some ((k, v) # (k', v') # rest)
          else map_option (\<lambda>rest'. (k', v') # rest') (sklPut k v rest))"

fun sklGet :: "skiplist \<Rightarrow> bytes \<Rightarrow> ValueStruct option option" where
  "sklGet [] k = Some None"
| "sklGet ((k', v') # rest) k =
     (case CompareKeys k k' of
        None \<Rightarrow> None
      | Some cmp \<Rightarrow>
          if 0 < cmp then sklGet rest k
          else map_option (\<lambda>same. if same then Some v' else None) (SameKey k k'))"

text \<open>
  Modelled from the spec: the type tags of package walEntry, which is not among the sources.
  "An entry carries one of two type tags: Normal or Tombstone"; Normal is the zero value
  that \<open>put\<close> leaves in place, Tombstone is \<open>TypeDelete\<close>.
\<close>

definition TypeDelete :: byte where
  "TypeDelete = 1"

record WalLogEntry =
  we_Key :: bytes
  we_Value :: bytes
  we_ExpiredAt :: "64 word"
  we_Type :: byte

record EntryOptions =
  eo_Sync :: bool
  eo_DisableWal :: bool
  eo_ExpiredAt :: "64 word"

record memOptions =
  mo_tableID :: "32 word"
  mo_memSize :: "32 word"
  mo_WALSync :: bool

text \<open>
  A memtable: its write-ahead log (\<open>None\<close> is the nil pointer; otherwise the entries
  written, in order: the byte framing of \<open>walEntry.EncodeEntry\<close> is outside the sources,
  so a chunk is the entry it frames), its skip list and its options.
\<close>

record memtable =
  mt_wal :: "WalLogEntry list option"
  mt_skl :: skiplist
  mt_opts :: memOptions

text \<open>
  \<open>openMemtable\<close>: \<open>opened\<close> is what \<open>wal.Open\<close> returns, an error or the results the
  reader will give one by one before \<open>io.EOF\<close>. A read error aborts; every entry read is
  put into the skip list in the order read (a decoding error is only logged there). \<open>None\<close>
  is a panic of the skip list.
\<close>

fun loadEntries :: "(error + WalLogEntry) list \<Rightarrow> skiplist \<Rightarrow> (error + skiplist) option" where
  "loadEntries [] s = Some (Inr s)"
| "loadEntries (Inl e # rest) s = Some (Inl e)"
| "loadEntries (Inr entry # rest) s =
     (case sklPut (we_Key entry)
             \<lparr>vs_Meta = 0, vs_ExpiresAt = 0,
              vs_Value = encode \<lparr>mv_value = we_Value entry, mv_expiredAt = we_ExpiredAt entry,
                                  mv_typ = we_Type entry\<rparr>\<rparr> s of
        None \<Rightarrow> None
      | Some s' \<Rightarrow> loadEntries rest s')"

definition openMemtable ::
  "error + (error + WalLogEntry) list \<Rightarrow> memOptions \<Rightarrow> (error + memtable) option" where
  "openMemtable opened options =
     (case opened of
        Inl e \<Rightarrow> Some (Inl e)
      | Inr items \<Rightarrow>
          (case loadEntries items [] of
             None \<Rightarrow> None
           | Some (Inl e) \<Rightarrow> Some (Inl e)
           | Some (Inr s) \<Rightarrow>
               Some (Inr \<lparr>mt_wal = Some (concat (map (\<lambda>it. case it of Inl e \<Rightarrow> [] | Inr en \<Rightarrow> [en]) items)),
                          mt_skl = s, mt_opts = options\<rparr>)))"

text \<open>
  \<open>memtable.put\<close>: \<open>wr\<close> and \<open>sr\<close> are the outcomes of \<open>wal.Write\<close> and \<open>wal.Sync\<close>
  (\<open>None\<close> for success). The result is the error returned and the memtable afterwards, or
  \<open>None\<close> when the skip list panics.
\<close>

definition put ::
  "error option \<Rightarrow> error option \<Rightarrow> memtable \<Rightarrow> bytes \<Rightarrow> bytes \<Rightarrow> bool \<Rightarrow> EntryOptions
     \<Rightarrow> (error option \<times> memtable) option" where
  "put wr sr mt key val deleted opts =
     (let entry = \<lparr>we_Key = key, we_Value = val,
                   we_ExpiredAt = (if 0 <s eo_ExpiredAt opts then eo_ExpiredAt opts else 0),
                   we_Type = (if deleted then TypeDelete else 0)\<rparr>;
          install = (\<lambda>m.
            let mv = \<lparr>mv_value = val, mv_expiredAt = we_ExpiredAt entry, mv_typ = we_Type entry\<rparr>;
                mvBuf = encode mv
            in map_option (\<lambda>skl'. (None, m\<lparr>mt_skl := skl'\<rparr>))
                 (sklPut key \<lparr>vs_Meta = 0, vs_ExpiresAt = 0, vs_Value = mvBuf\<rparr> (mt_skl m)))
      in if \<not> eo_DisableWal opts \<and> mt_wal mt \<noteq> None then
           (case wr of
              Some err \<Rightarrow> Some (Some err, mt)
            | None \<Rightarrow>
                (let mt1 = mt\<lparr>mt_wal := map_option (\<lambda>w. w @ [entry]) (mt_wal mt)\<rparr>
                 in if eo_Sync opts \<and> \<not> mo_WALSync (mt_opts mt) then
                      (case sr of Some err \<Rightarrow> Some (Some err, mt1) | None \<Rightarrow> install mt1)
                    else install mt1))
         else install mt)"

text \<open>
  \<open>memtable.get\<close> at clock reading \<open>now\<close> (\<open>time.Now().Unix()\<close>). The Go function returns
  a pair \<open>(bool, []byte)\<close>; a nil slice is \<open>None\<close>. The outer \<open>None\<close> is a panic, of the
  skip list or of \<open>decodeMemValue\<close>.
\<close>

definition get :: "64 word \<Rightarrow> memtable \<Rightarrow> bytes \<Rightarrow> (bool \<times> bytes option) option" where
  "get now mt key =
     (case sklGet (mt_skl mt) key of
        None \<Rightarrow> None
      | Some None \<Rightarrow> Some (False, None)
      | Some (Some valStru) \<Rightarrow>
          (case decodeMemValue (vs_Value valStru) of
             None \<Rightarrow> None
           | Some mv \<Rightarrow>
               if mv_typ mv = TypeDelete then Some (True, None)
               else if 0 <s mv_expiredAt mv \<and> mv_expiredAt mv \<le>s now then Some (True, None)
               else Some (False, Some (mv_value mv))))"

text \<open>\<open>memtable.delete\<close> puts a tombstone.\<close>

definition delete :: "error option \<Rightarrow> error option \<Rightarrow> memtable \<Rightarrow> bytes \<Rightarrow> EntryOptions
     \<Rightarrow> (error option \<times> memtable) option" where
  "delete wr sr mt key opts = put wr sr mt key [] True opts"

subsection \<open>The database: memtable tiers\<close>

text \<open>
  The fields of \<open>DB\<close> that the tier operations touch. \<open>flushChan\<close> is the buffered channel
  to the flush worker, as the queue of memtables sent and not yet received.
\<close>

record DB =
  db_activeMem :: memtable
  db_immuMems :: "memtable list"
  db_flushChan :: "memtable list"

text \<open>
  \<open>DB.getMemTables\<close>: the loop appends \<open>immuMems[last - i]\<close> for \<open>i\<close> over the indices of
  \<open>immuMems\<close>, after the active memtable.
\<close>

definition getMemTables :: "DB \<Rightarrow> memtable list" where
  "getMemTables db =
     (let tables = [db_activeMem db];
          last = int (length (db_immuMems db)) - 1
      in foldl (\<lambda>tables i. tables @ [db_immuMems db ! nat (last - int i)])
           tables [0 ..< length (db_immuMems db)])"

text \<open>
  \<open>DB.waitMemtableSpace\<close>. The \<open>select\<close> has two cases; which one fires is the scheduler's
  choice \<open>sel\<close>. \<open>isFull\<close> is \<open>memtable.isFull\<close>, which is not among the sources, and
  \<open>opened\<close> is what \<open>wal.Open\<close> gives \<open>openMemtable\<close>. The options of the new memtable
  are a copy of the active memtable's with \<open>tableID\<close> one higher; when \<open>openMemtable\<close>
  fails, the memtable has already been sent and appended. \<open>None\<close> is a panic inside
  \<open>openMemtable\<close>.
\<close>

datatype select_case = SendAccepted | TimerFired

definition waitMemtableSpace ::
  "(memtable \<Rightarrow> bool) \<Rightarrow> (error + (error + WalLogEntry) list) \<Rightarrow> select_case \<Rightarrow> DB
     \<Rightarrow> (error option \<times> DB) option" where
  "waitMemtableSpace isFull opened sel db =
     (if \<not> isFull (db_activeMem db) then Some (None, db)
      else
        (case sel of
           SendAccepted \<Rightarrow>
             (let db1 = db\<lparr>db_flushChan := db_flushChan db @ [db_activeMem db]\<rparr>;
                  db2 = db1\<lparr>db_immuMems := db_immuMems db1 @ [db_activeMem db1]\<rparr>;
                  options = mt_opts (db_activeMem db2);
                  options' = options\<lparr>mo_tableID := mo_tableID options + 1\<rparr>
              in (case openMemtable opened options' of
                    None \<Rightarrow> None
                  | Some (Inl err) \<Rightarrow> Some (Some err, db2)
                  | Some (Inr table) \<Rightarrow> Some (None, db2\<lparr>db_activeMem := table\<rparr>)))
         | TimerFired \<Rightarrow> Some (Some ErrWaitMemtableSpaceTimeOut, db)))"

text \<open>
  Modelled from the spec: the walk of a read over the memtables. The batch's \<open>Get\<close> is not
  among the sources (the batch file holds empty stubs that the database code does not even
  call with matching arguments). "Read operations are serviced by walking memtables
  newest-first, on miss consulting the index"; "a tombstone in any tier suppresses all
  older-tier values". The walk takes the tiers in the order given and stops at the first
  memtable that holds the key, live or suppressed; \<open>Miss\<close> sends the read on to the index.
\<close>

datatype lookup = Found bytes | Suppressed | Miss

fun walkMemTables :: "64 word \<Rightarrow> memtable list \<Rightarrow> bytes \<Rightarrow> lookup option" where
  "walkMemTables now [] key = Some Miss"
| "walkMemTables now (table # tables) key =
     (case get now table key of
        None \<Rightarrow> None
      | Some (True, _) \<Rightarrow> Some Suppressed
      | Some (False, Some v) \<Rightarrow> Some (Found v)
      | Some (False, None) \<Rightarrow> walkMemTables now tables key)"

subsection \<open>Flush\<close>

type_synonym uid = "128 word"

record ValueLogRecord =
  vr_key :: bytes
  vr_value :: bytes
  vr_uid :: uid

text \<open>
  Modelled from the spec: the tombstone tag of a log record, a constant declared outside the
  sources. "An entry carries one of two type tags: Normal or Tombstone", Normal being zero.
\<close>

definition LogRecordDeleted :: byte where
  "LogRecordDeleted = 1"

text \<open>
  The first loop of \<open>DB.flushMemtable\<close>: the skip list is iterated in key order; the key
  of every entry is cut by \<open>y.ParseKey\<close>, which panics on a stored key of fewer than eight
  bytes (\<open>None\<close>), and the entry goes to \<open>deletedKeys\<close> or, with a fresh uid, to
  \<open>logRecords\<close>. \<open>newUid n\<close> is the \<open>n\<close>-th uid that \<open>uuid.New\<close> hands out.
\<close>

fun divideRecords ::
  "(nat \<Rightarrow> uid) \<Rightarrow> skiplist \<Rightarrow> bytes list \<Rightarrow> ValueLogRecord list
     \<Rightarrow> (bytes list \<times> ValueLogRecord list) option" where
  "divideRecords newUid [] deletedKeys logRecords = Some (deletedKeys, logRecords)"
| "divideRecords newUid ((sklKey, valueStruct) # rest) deletedKeys logRecords =
     (case ParseKey sklKey of
        None \<Rightarrow> None
      | Some key \<Rightarrow>
          if vs_Meta valueStruct = LogRecordDeleted then
            divideRecords newUid rest (deletedKeys @ [key]) logRecords
          else
            divideRecords newUid rest deletedKeys
              (logRecords @ [\<lparr>vr_key = key, vr_value = vs_Value valueStruct,
                               vr_uid = newUid (length logRecords)\<rparr>]))"


text \<open>
  The steps of \<open>flushMemtable\<close> between the first loop and the threshold check call the
  value log and the index; each can fail, and a failure returns from \<open>flushMemtable\<close> at
  once. The record holds the outcome of each step, in the order of the calls.
\<close>

record flushSteps =
  fs_writeBatch :: "error option"
  fs_vlogSync :: "error option"
  fs_putBatch :: "error option"
  fs_deleteBatch :: "error option"
  fs_indexSync :: "error option"
  fs_deleteWAl :: "error option"

definition flushCompleted :: "flushSteps \<Rightarrow> bool" where
  "flushCompleted st =
     (fs_writeBatch st = None \<and> fs_vlogSync st = None \<and> fs_putBatch st = None
      \<and> fs_deleteBatch st = None \<and> fs_indexSync st = None \<and> fs_deleteWAl st = None)"

datatype ThresholdState = ArriveLowerThreshold | ArriveUpperThreshold

text \<open>
  The thresholds are computed in float32. A non-negative finite float32 is a significand
  below \<open>2 ^ 24\<close> times a power of two from \<open>2 ^ - 149\<close> up to \<open>2 ^ 104\<close>; the record
  stands for \<open>f_man \<cdot> 2 ^ f_exp\<close>. The rates of the options have this type; negative rates,
  infinities and NaN, on which the conversion to \<open>uint32\<close> is left to the implementation,
  are outside it.
\<close>

record float32 =
  f_man :: nat
  f_exp :: int

definition isFloat32 :: "float32 \<Rightarrow> bool" where
  "isFloat32 f \<longleftrightarrow> f_man f < 2 ^ 24 \<and> - 149 \<le> f_exp f \<and> f_exp f \<le> 104"

definition valueOf :: "float32 \<Rightarrow> real" where
  "valueOf f =
     (if 0 \<le> f_exp f then real (f_man f * 2 ^ nat (f_exp f))
      else real (f_man f) / 2 ^ nat (- f_exp f))"

text \<open>The number of bits of a natural number.\<close>

fun bitLen :: "nat \<Rightarrow> nat" where
  "bitLen n = (if n = 0 then 0 else Suc (bitLen (n div 2)))"

declare bitLen.simps [simp del]

text \<open>
  \<open>roundShift m k\<close> is \<open>m / 2 ^ k\<close> rounded to the nearest whole number, a tie going to
  the even one. \<open>roundFloat32 m e\<close> rounds \<open>m \<cdot> 2 ^ e\<close> to float32: the significand keeps
  24 bits, fewer where the exponent would fall below \<open>- 149\<close>. Overflow to infinity, from
  \<open>2 ^ 128\<close> on, is not modelled.
\<close>

definition roundShift :: "nat \<Rightarrow> nat \<Rightarrow> nat" where
  "roundShift m k =
     (if k = 0 then m
      else
        (let q = m div 2 ^ k;
             r = m mod 2 ^ k;
             half = 2 ^ (k - 1)
         in if half < r \<or> (r = half \<and> odd q) then q + 1 else q))"

definition roundFloat32 :: "nat \<Rightarrow> int \<Rightarrow> float32" where
  "roundFloat32 m e =
     (let k = max (int (bitLen m) - 24) (- 149 - e)
      in if k \<le> 0 then \<lparr>f_man = m, f_exp = e\<rparr>
         else \<lparr>f_man = roundShift m (nat k), f_exp = e + k\<rparr>)"

text \<open>
  The three operations of \<open>uint32(float32(totalNumber) * rate)\<close>: the conversion of the
  counter, which rounds; the product, which rounds the exact product; and the conversion
  back, which cuts off the fraction (a value of \<open>2 ^ 32\<close> or more is left to the
  implementation by the language and is taken modulo \<open>2 ^ 32\<close> here).
\<close>

definition float32_of_uint32 :: "32 word \<Rightarrow> float32" where
  "float32_of_uint32 n = roundFloat32 (unat n) 0"

definition mulFloat32 :: "float32 \<Rightarrow> float32 \<Rightarrow> float32" where
  "mulFloat32 a b = roundFloat32 (f_man a * f_man b) (f_exp a + f_exp b)"

definition uint32_of_float32 :: "float32 \<Rightarrow> 32 word" where
  "uint32_of_float32 f =
     word_of_nat (if 0 \<le> f_exp f then f_man f * 2 ^ nat (f_exp f)
                  else f_man f div 2 ^ nat (- f_exp f))"

definition threshold :: "32 word \<Rightarrow> float32 \<Rightarrow> 32 word" where
  "threshold totalNumber rate =
     uint32_of_float32 (mulFloat32 (float32_of_uint32 totalNumber) rate)"

text \<open>
  The threshold check that ends \<open>flushMemtable\<close>: the signal sent on \<open>compactChan\<close>, if any.
\<close>

definition flushSignal ::
  "flushSteps \<Rightarrow> bool \<Rightarrow> 32 word \<Rightarrow> 32 word \<Rightarrow> float32 \<Rightarrow> float32
     \<Rightarrow> ThresholdState option" where
  "flushSignal st autoCompact deprecatedNumber totalNumber lowerRate upperRate =
     (if \<not> flushCompleted st then None
      else if autoCompact then
        (let lowerThreshold = threshold totalNumber lowerRate;
             upperThreshold = threshold totalNumber upperRate
         in if upperThreshold \<le> deprecatedNumber then Some ArriveUpperThreshold
            else if lowerThreshold < deprecatedNumber then Some ArriveLowerThreshold
            else None)
      else None)"

subsection \<open>Compaction\<close>

datatype IndexType = BTree | Hash

record ChunkPosition =
  cp_SegmentId :: "32 word"
  cp_BlockNumber :: "32 word"
  cp_ChunkOffset :: "64 word"
  cp_ChunkSize :: "32 word"

record KeyPosition =
  kp_key :: bytes
  kp_partition :: "32 word"
  kp_uid :: uid
  kp_position :: ChunkPosition

text \<open>
  What \<open>reader.Next\<close> yields for one partition, call by call, before \<open>io.EOF\<close>: an error, or
  a chunk with its position. \<open>decodeValueLogRecord\<close> is outside the sources, so a chunk is
  given as the record it decodes to.
\<close>

datatype readResult = ReadErr error | Chunk ValueLogRecord ChunkPosition

text \<open>
  What a partition worker meets outside its own code: the options, the deprecated table
  (\<open>valueLog.isDeprecated\<close>), the index (\<open>index.Get\<close>, and for the hash index the position
  that the match callback leaves in \<open>hashTableKeyPos\<close>), and the outcomes of
  \<open>rewriteValidRecords\<close>, of \<open>RenameFileExt\<close> and of the two calls of \<open>openVlogFile\<close>, for
  the temporary and for the live extension (\<open>openVlogFile\<close> panics when \<open>wal.Open\<close> fails).
\<close>

record compactEnv =
  ce_IndexType :: IndexType
  ce_compactBatchCount :: int
  ce_isDeprecated :: "nat \<Rightarrow> uid \<Rightarrow> bool"
  ce_indexGet :: "bytes \<Rightarrow> error + KeyPosition option"
  ce_hashTableKeyPos :: "bytes \<Rightarrow> KeyPosition option"
  ce_rewriteValidRecords :: "ValueLogRecord list \<Rightarrow> error option"
  ce_RenameFileExt :: "error option"
  ce_openTemp :: "error option"
  ce_openLive :: "error option"

text \<open>
  The calls a worker makes on the files of its partition, in the order made.
  \<open>RewriteValidRecords\<close> carries the batch handed over; \<open>DeleteNew\<close> and \<open>DeleteOld\<close>
  are \<open>newVlogFile.Delete\<close> and \<open>walFiles[part].Delete\<close>.
\<close>

datatype event =
    OpenTemp
  | RewriteValidRecords "ValueLogRecord list"
  | DeleteNew
  | DeleteOld
  | CloseNew
  | RenameToLive
  | OpenLive
  | CleanDpTable

datatype bodyExit =
    Next "ValueLogRecord list" "event list"
  | ReturnErr error "event list"
  | Panic

text \<open>
  The end of a loop body in both compactions: on every \<open>compactBatchCount\<close>-th chunk the
  valid records go to \<open>rewriteValidRecords\<close> and the batch is emptied. \<open>count %
  compactBatchCount\<close> panics when the divisor is zero.
\<close>

definition rewriteBatch :: "compactEnv \<Rightarrow> int \<Rightarrow> ValueLogRecord list \<Rightarrow> bodyExit" where
  "rewriteBatch env count validRecords =
     (if ce_compactBatchCount env = 0 then Panic
      else if count mod ce_compactBatchCount env = 0 then
        (case ce_rewriteValidRecords env validRecords of
           Some err \<Rightarrow> ReturnErr err [RewriteValidRecords validRecords, DeleteNew]
         | None \<Rightarrow> Next [] [RewriteValidRecords validRecords])
      else Next validRecords [])"


text \<open>
  The body of the read loop of \<open>CompactWithDeprecatedtable\<close> for one chunk: the deprecated
  table is asked first, then, for the hash index, the index.
\<close>

definition deprecatedBody ::
  "compactEnv \<Rightarrow> nat \<Rightarrow> int \<Rightarrow> ValueLogRecord \<Rightarrow> ChunkPosition \<Rightarrow> ValueLogRecord list
     \<Rightarrow> bodyExit" where
  "deprecatedBody env part count record pos validRecords =
     (let validRecords1 = (if \<not> ce_isDeprecated env part (vr_uid record)
                           then validRecords @ [record] else validRecords)
      in if ce_IndexType env = Hash then
           (case ce_indexGet env (vr_key record) of
              Inl err \<Rightarrow> ReturnErr err [DeleteNew]
            | Inr found \<Rightarrow>
                (case ce_hashTableKeyPos env (vr_key record) of
                   None \<Rightarrow> Next validRecords1 []
                 | Some kp \<Rightarrow>
                     rewriteBatch env count
                       (if kp_partition kp = word_of_nat part \<and> kp_position kp = pos
                        then validRecords1 @ [record] else validRecords1)))
         else rewriteBatch env count validRecords1)"

datatype loopExit = Break "ValueLogRecord list" | Return error | LoopPanic

text \<open>
  The read loop, for either body: \<open>io.EOF\<close> (the end of the list) breaks, any other read
  error deletes the new file and returns it.
\<close>

fun readLoop ::
  "(int \<Rightarrow> ValueLogRecord \<Rightarrow> ChunkPosition \<Rightarrow> ValueLogRecord list \<Rightarrow> bodyExit)
     \<Rightarrow> int \<Rightarrow> ValueLogRecord list \<Rightarrow> readResult list \<Rightarrow> loopExit \<times> event list" where
  "readLoop body count validRecords [] = (Break validRecords, [])"
| "readLoop body count validRecords (ReadErr err # rest) = (Return err, [DeleteNew])"
| "readLoop body count validRecords (Chunk record pos # rest) =
     (case body (count + 1) record pos validRecords of
        Next validRecords' evs \<Rightarrow>
          (let (x, evs') = readLoop body (count + 1) validRecords' rest in (x, evs @ evs'))
      | ReturnErr err evs \<Rightarrow> (Return err, evs)
      | Panic \<Rightarrow> (LoopPanic, []))"

datatype exit = Returned "error option" | Panicked

text \<open>
  After the loop, in both compactions: the trailing batch is rewritten, then the old file is
  deleted, the new one closed and renamed, and the partition reopened. \<open>Compact\<close> also
  cleans the partition's deprecated table (\<open>clean\<close>).
\<close>

definition replaceVlog :: "compactEnv \<Rightarrow> bool \<Rightarrow> exit \<times> event list" where
  "replaceVlog env clean =
     (case ce_RenameFileExt env of
        Some err \<Rightarrow> (Returned (Some err), [DeleteOld, CloseNew, RenameToLive])
      | None \<Rightarrow>
          (case ce_openLive env of
             Some err \<Rightarrow> (Panicked, [DeleteOld, CloseNew, RenameToLive, OpenLive])
           | None \<Rightarrow>
               (Returned None,
                [DeleteOld, CloseNew, RenameToLive, OpenLive]
                  @ (if clean then [CleanDpTable] else []))))"

definition finishPartition :: "compactEnv \<Rightarrow> bool \<Rightarrow> loopExit \<times> event list \<Rightarrow> exit \<times> event list" where
  "finishPartition env clean looped =
     (case looped of
        (Break validRecords, evs) \<Rightarrow>
          (if validRecords \<noteq> [] then
             (case ce_rewriteValidRecords env validRecords of
                Some err \<Rightarrow>
                  (Returned (Some err), evs @ [RewriteValidRecords validRecords, DeleteNew])
              | None \<Rightarrow>
                  (let (x, evs') = replaceVlog env clean
                   in (x, evs @ [RewriteValidRecords validRecords] @ evs')))
           else (let (x, evs') = replaceVlog env clean in (x, evs @ evs')))
      | (Return err, evs) \<Rightarrow> (Returned (Some err), evs)
      | (LoopPanic, evs) \<Rightarrow> (Panicked, evs))"


definition CompactWithDeprecatedtable ::
  "compactEnv \<Rightarrow> nat \<Rightarrow> readResult list \<Rightarrow> exit \<times> event list" where
  "CompactWithDeprecatedtable env part chunks =
     (if ce_openTemp env \<noteq> None then (Panicked, [OpenTemp])
      else if ce_compactBatchCount env < 0 then (Panicked, [OpenTemp])
      else
        (let (x, evs) =
               finishPartition env False (readLoop (deprecatedBody env part) 0 [] chunks)
         in (x, OpenTemp # evs)))"




subsection \<open>The counters file\<close>

text \<open>
  \<open>binary.Write\<close> and \<open>binary.Read\<close> of a \<open>uint32\<close> in \<open>binary.LittleEndian\<close>. Reading takes
  four bytes off the front of what is left of the file; with none left it fails with
  \<open>io.EOF\<close>, with fewer than four with \<open>io.ErrUnexpectedEOF\<close>.
\<close>

definition PutUint32 :: "32 word \<Rightarrow> bytes" where
  "PutUint32 v = [ucast v, ucast (drop_bit 8 v), ucast (drop_bit 16 v), ucast (drop_bit 24 v)]"

definition Uint32 :: "bytes \<Rightarrow> 32 word" where
  "Uint32 b = ucast (b ! 0) OR push_bit 8 (ucast (b ! 1)) OR push_bit 16 (ucast (b ! 2))
                OR push_bit 24 (ucast (b ! 3))"

definition binaryRead :: "bytes \<Rightarrow> error + (32 word \<times> bytes)" where
  "binaryRead file =
     (if file = [] then Inl EOF
      else if length file < 4 then Inl ErrUnexpectedEOF
      else Inr (Uint32 (take 4 file), drop 4 file))"

text \<open>
  The steps of \<open>DB.Close\<close> that can fail outside its own code, in the order of the calls.
\<close>

record closeSteps =
  cs_memtablesClose :: "error option"
  cs_indexClose :: "error option"
  cs_OpenFile :: "error option"
  cs_write1 :: "error option"
  cs_write2 :: "error option"
  cs_vlogClose :: "error option"
  cs_Unlock :: "error option"

text \<open>
  \<open>DB.Close\<close> after the workers have drained, on the counters of the value log and the
  DEPMETA file (\<open>None\<close> when it does not exist): \<open>os.OpenFile\<close> with \<open>O_RDWR|O_TRUNC\<close> and
  no \<open>O_CREATE\<close> fails on a missing file and empties an existing one; then the two
  counters are written. The result is the error returned and the file afterwards.
\<close>

definition Close ::
  "closeSteps \<Rightarrow> 32 word \<Rightarrow> 32 word \<Rightarrow> bytes option \<Rightarrow> error option \<times> bytes option" where
  "Close st deprecatedNumber totalNumber depMeta =
     (case cs_memtablesClose st of
        Some err \<Rightarrow> (Some err, depMeta)
      | None \<Rightarrow>
     (case cs_indexClose st of
        Some err \<Rightarrow> (Some err, depMeta)
      | None \<Rightarrow>
     (case depMeta of
        None \<Rightarrow> (Some ErrNotExist, None)
      | Some old \<Rightarrow>
     (case cs_OpenFile st of
        Some err \<Rightarrow> (Some err, depMeta)
      | None \<Rightarrow>
     (let file0 = [] in
      case cs_write1 st of
        Some err \<Rightarrow> (Some err, Some file0)
      | None \<Rightarrow>
     (let file1 = file0 @ PutUint32 deprecatedNumber in
      case cs_write2 st of
        Some err \<Rightarrow> (Some err, Some file1)
      | None \<Rightarrow>
     (let file2 = file1 @ PutUint32 totalNumber in
      case cs_vlogClose st of
        Some err \<Rightarrow> (Some err, Some file2)
      | None \<Rightarrow>
     (case cs_Unlock st of
        Some err \<Rightarrow> (Some err, Some file2)
      | None \<Rightarrow> (None, Some file2)))))))))"

text \<open>
  The part of \<open>Open\<close> that reads the counters: a missing file is created empty and both
  counters are zero; an existing one is read, \<open>deprecatedNumber\<close> first. Failures of
  \<open>os.Stat\<close>, \<open>os.Create\<close> and \<open>os.Open\<close> themselves are left out.
\<close>

definition Open_deprecatedMeta :: "bytes option \<Rightarrow> (error + 32 word \<times> 32 word) \<times> bytes option" where
  "Open_deprecatedMeta depMeta =
     (case depMeta of
        None \<Rightarrow> (Inr (0, 0), Some [])
      | Some file \<Rightarrow>
          (case binaryRead file of
             Inl err \<Rightarrow> (Inl err, depMeta)
           | Inr (deprecatedNumber, rest) \<Rightarrow>
               (case binaryRead rest of
                  Inl err \<Rightarrow> (Inl err, depMeta)
                | Inr (totalEntryNumber, rest') \<Rightarrow>
                    (Inr (deprecatedNumber, totalEntryNumber), depMeta))))"

text \<open>
  The rule of the specification for the signal, in its own words: with \<open>U\<close> the deprecated
  count, \<open>T\<close> the total count, \<open>r_lo = lower_rate \<cdot> T\<close> and \<open>r_hi = upper_rate \<cdot> T\<close>,
  "if \<open>U \<ge> r_hi\<close> send ArriveUpperThreshold, else if \<open>U > r_lo\<close> send
  ArriveLowerThreshold, else send nothing".
\<close>

definition signalAsSpecified :: "32 word \<Rightarrow> 32 word \<Rightarrow> real \<Rightarrow> real \<Rightarrow> ThresholdState option" where
  "signalAsSpecified U T lower_rate upper_rate =
     (let r_lo = lower_rate * real (unat T);
          r_hi = upper_rate * real (unat T)
      in if r_hi \<le> real (unat U) then Some ArriveUpperThreshold
         else if r_lo < real (unat U) then Some ArriveLowerThreshold
         else None)"

subsection \<open>Sample values\<close>

text \<open>Small concrete memtables, options and environments on which the theorems are run.\<close>

definition sampleOptions :: memOptions where
  "sampleOptions = \<lparr>mo_tableID = 1, mo_memSize = 64, mo_WALSync = False\<rparr>"

text \<open>Key \<open>k\<close> with the eight bytes of version 0, and the same user key at another version.\<close>

definition sampleKey :: bytes where
  "sampleKey = [107, 0, 0, 0, 0, 0, 0, 0, 0]"

definition otherVersion :: bytes where
  "otherVersion = [107, 0, 0, 0, 0, 0, 0, 0, 1]"

definition sampleTable :: memtable where
  "sampleTable = \<lparr>mt_wal = Some [], mt_skl = [], mt_opts = sampleOptions\<rparr>"

definition plainWrite :: EntryOptions where
  "plainWrite = \<lparr>eo_Sync = False, eo_DisableWal = False, eo_ExpiredAt = 0\<rparr>"

definition expiringWrite :: EntryOptions where
  "expiringWrite = \<lparr>eo_Sync = False, eo_DisableWal = False, eo_ExpiredAt = 5\<rparr>"

definition liveTable :: memtable where
  "liveTable = snd (the (put None None sampleTable sampleKey [118] False plainWrite))"

definition tombstoneTable :: memtable where
  "tombstoneTable = snd (the (delete None None sampleTable sampleKey plainWrite))"

definition expiredTable :: memtable where
  "expiredTable = snd (the (put None None sampleTable sampleKey [118] False expiringWrite))"

definition sampleDB :: DB where
  "sampleDB = \<lparr>db_activeMem = liveTable, db_immuMems = [tombstoneTable, expiredTable],
               db_flushChan = []\<rparr>"

text \<open>The rates 0.25 and 0.75, and float32's nearest value to 0.9.\<close>

definition quarter :: float32 where
  "quarter = \<lparr>f_man = 1, f_exp = - 2\<rparr>"

definition threeQuarters :: float32 where
  "threeQuarters = \<lparr>f_man = 3, f_exp = - 2\<rparr>"

definition ninetyPercent :: float32 where
  "ninetyPercent = \<lparr>f_man = 15099494, f_exp = - 24\<rparr>"

definition completedSteps :: flushSteps where
  "completedSteps = \<lparr>fs_writeBatch = None, fs_vlogSync = None, fs_putBatch = None,
                     fs_deleteBatch = None, fs_indexSync = None, fs_deleteWAl = None\<rparr>"

definition cleanClose :: closeSteps where
  "cleanClose = \<lparr>cs_memtablesClose = None, cs_indexClose = None, cs_OpenFile = None,
                 cs_write1 = None, cs_write2 = None, cs_vlogClose = None, cs_Unlock = None\<rparr>"

text \<open>
  A value-log record with the position it is read at, another position, and a worker
  environment with the hash index in which nothing is deprecated, nothing fails and key 107
  is indexed at the position given.
\<close>

definition sampleRecord :: ValueLogRecord where
  "sampleRecord = \<lparr>vr_key = [107], vr_value = [118], vr_uid = 1\<rparr>"

definition samplePosition :: ChunkPosition where
  "samplePosition = \<lparr>cp_SegmentId = 1, cp_BlockNumber = 0, cp_ChunkOffset = 0, cp_ChunkSize = 24\<rparr>"

definition stalePosition :: ChunkPosition where
  "stalePosition = \<lparr>cp_SegmentId = 1, cp_BlockNumber = 0, cp_ChunkOffset = 31, cp_ChunkSize = 24\<rparr>"

definition hashEnv :: "ChunkPosition \<Rightarrow> compactEnv" where
  "hashEnv indexed =
     \<lparr>ce_IndexType = Hash, ce_compactBatchCount = 10,
      ce_isDeprecated = (\<lambda>part uid. False),
      ce_indexGet = (\<lambda>key. Inr None),
      ce_hashTableKeyPos = (\<lambda>key. if key = [107]
         then Some \<lparr>kp_key = [107], kp_partition = 0, kp_uid = 1, kp_position = indexed\<rparr>
         else None),
      ce_rewriteValidRecords = (\<lambda>records. None),
      ce_RenameFileExt = None, ce_openTemp = None, ce_openLive = None\<rparr>"

section \<open>Varints and the value slot: round trip\<close>

lemma sless0_bit: "x <s 0 \<longleftrightarrow> bit (x::64 word) 63"
  using bit_last_iff [of x] by (simp add: word_sless_alt)

lemma and1_bit: "(w :: 64 word) AND 1 \<noteq> 0 \<longleftrightarrow> bit w 0"
  by (simp add: and_one_eq bit_0 mod_2_eq_odd)

lemma zigzag_neg: "bit (x::64 word) 63 \<Longrightarrow> NOT (drop_bit 1 (NOT (push_bit 1 x))) = x"
proof (rule bit_word_eqI)
  fix n assume b: "bit x 63" and n: "n < LENGTH(64)"
  show "bit (NOT (drop_bit 1 (NOT (push_bit 1 x)))) n = bit x n"
  proof (cases "n = 63")
    case True
    then show ?thesis using b by (simp add: bit_simps del: push_bit_Suc)
  next
    case False
    then have "n + 1 < 64" using n by simp
    then show ?thesis using n by (simp add: bit_simps del: push_bit_Suc)
  qed
qed

lemma zigzag_pos: "\<not> bit (x::64 word) 63 \<Longrightarrow> drop_bit 1 (push_bit 1 x) = x"
proof (rule bit_word_eqI)
  fix n assume b: "\<not> bit x 63" and n: "n < LENGTH(64)"
  show "bit (drop_bit 1 (push_bit 1 x)) n = bit x n"
  proof (cases "n = 63")
    case True
    then show ?thesis using b by (simp add: bit_simps del: push_bit_Suc)
  next
    case False
    then have "n + 1 < 64" using n by simp
    then show ?thesis using n by (simp add: bit_simps del: push_bit_Suc)
  qed
qed

lemma zigzag:
  "(let ux = push_bit 1 (x::64 word);
        ux' = (if x <s 0 then NOT ux else ux);
        y = drop_bit 1 ux'
    in (if ux' AND 1 \<noteq> 0 then NOT y else y)) = x"
  by (simp add: Let_def and1_bit sless0_bit zigzag_neg zigzag_pos bit_simps bit_0
      del: push_bit_Suc One_nat_def)

lemma bit_x7f: "bit (0x7f :: 'a::len word) m \<longleftrightarrow> m < 7 \<and> m < LENGTH('a)"
proof -
  have "(0x7f :: 'a word) = mask 7" by (simp add: mask_eq_exp_minus_1)
  then have "bit (0x7f :: 'a word) m = bit (mask 7 :: 'a word) m" by (rule arg_cong)
  also have "\<dots> \<longleftrightarrow> m < 7 \<and> m < LENGTH('a)"
    by (auto simp only: bit_mask_iff possible_bit_word)
  finally show ?thesis .
qed

lemma bit_x80: "bit (0x80 :: 'a::len word) m \<longleftrightarrow> m = 7 \<and> m < LENGTH('a)"
proof -
  have "(0x80 :: 'a word) = 2 ^ 7" by simp
  then have "bit (0x80 :: 'a word) m = bit (2 ^ 7 :: 'a word) m" by (rule arg_cong)
  also have "\<dots> \<longleftrightarrow> m = 7 \<and> m < LENGTH('a)"
    by (auto simp only: bit_exp_iff possible_bit_word)
  finally show ?thesis .
qed

lemma bit_x7f_int: "bit (0x7f :: int) m \<longleftrightarrow> m < 7"
proof -
  have "(0x7f :: int) = mask 7" by (simp add: mask_eq_exp_minus_1)
  then have "bit (0x7f :: int) m = bit (mask 7 :: int) m" by (rule arg_cong)
  also have "\<dots> \<longleftrightarrow> m < 7" by (simp add: bit_mask_iff possible_bit_def)
  finally show ?thesis .
qed

lemma bit_x80_int: "bit (0x80 :: int) m \<longleftrightarrow> m = 7"
proof -
  have "(0x80 :: int) = 2 ^ 7" by simp
  then have "bit (0x80 :: int) m = bit (2 ^ 7 :: int) m" by (rule arg_cong)
  also have "\<dots> \<longleftrightarrow> m = 7" by (simp only: bit_exp_iff possible_bit_def) auto
  finally show ?thesis .
qed

text \<open>A continuation byte's low seven bits and the rest of the number make up the number.\<close>

lemma join_groups:
  "push_bit s (ucast ((ucast (x::64 word) OR (0x80::8 word)) AND 0x7f) :: 64 word)
     OR push_bit (s + 7) (drop_bit 7 x) = push_bit s x"
proof (rule bit_word_eqI)
  fix n assume n: "n < LENGTH(64)"
  show "bit (push_bit s (ucast ((ucast x OR (0x80::8 word)) AND 0x7f) :: 64 word)
               OR push_bit (s + 7) (drop_bit 7 x)) n = bit (push_bit s x) n"
  proof (cases "n - s < 7")
    case True
    then show ?thesis
      using n by (auto simp: bit_simps bit_x7f bit_x80 bit_x7f_int bit_x80_int)
  next
    case False
    then have "7 + (n - (s + 7)) = n - s" by simp
    then show ?thesis
      using n False by (auto simp: bit_simps bit_x7f bit_x80 bit_x7f_int bit_x80_int)
  qed
qed

lemma last_group:
  assumes "(x::64 word) < 0x80"
  shows "(ucast (ucast x :: 8 word) :: 64 word) = x"
proof -
  have "x < 2 ^ 7" using assms by simp
  then have t: "x AND mask 7 = x" by (rule less_mask_eq)
  show ?thesis
  proof (rule bit_word_eqI)
    fix n assume n: "n < LENGTH(64)"
    have "bit x n \<Longrightarrow> n < 7"
      using t by (metis bit_and_iff bit_mask_iff)
    then show "bit (ucast (ucast x :: 8 word) :: 64 word) n = bit x n"
      using n by (auto simp: bit_simps)
  qed
qed

lemma continuation_byte: "\<not> ((ucast (x::64 word) OR 0x80 :: 8 word) < 0x80)"
proof -
  have "(0x80 :: 8 word) \<le> 0x80 OR ucast x" by (rule le_word_or2)
  then show ?thesis by (simp add: or.commute not_less)
qed

lemma final_byte:
  assumes "\<not> 0x80 \<le> (x::64 word)"
  shows "(ucast x :: 8 word) < 0x80"
proof -
  have "unat x < 128" using assms by (simp add: word_le_nat_alt)
  then show ?thesis by (simp add: word_less_nat_alt unsigned_ucast_eq take_bit_eq_mod)
qed

lemma tenth_byte:
  assumes "unat (x::64 word) < 2"
  shows "\<not> 1 < (ucast x :: 8 word)"
  using assms by (simp add: word_less_nat_alt unsigned_ucast_eq take_bit_eq_mod)

lemma power_split7:
  assumes "i \<le> 8"
  shows "(2::nat) ^ (64 - 7 * i) = 128 * 2 ^ (64 - 7 * (i + 1))"
proof -
  have "64 - 7 * i = 7 + (64 - 7 * (i + 1))" using assms by simp
  then show ?thesis by (simp only: power_add) simp
qed

text \<open>
  Reading back what \<open>PutUvarint\<close> wrote, from any position \<open>i\<close> of the decoder at which the
  number still fits the remaining \<open>64 - 7 * i\<close> bits: no overflow branch is taken.
\<close>

lemma Uvarint_loop_PutUvarint:
  "i \<le> 9 \<Longrightarrow> s = 7 * i \<Longrightarrow> unat x < 2 ^ (64 - 7 * i) \<Longrightarrow>
   Uvarint_loop i acc s (PutUvarint x @ rest)
     = (acc OR push_bit s x, int i + int (length (PutUvarint x)))"
proof (induction x arbitrary: i s acc rule: PutUvarint.induct)
  case (1 x)
  show ?case
  proof (cases "0x80 \<le> x")
    case True
    then have ux: "128 \<le> unat x" by (simp add: word_le_nat_alt)
    have i8: "i \<le> 8"
    proof (rule ccontr)
      assume "\<not> i \<le> 8"
      then have "i = 9" using "1.prems"(1) by simp
      then show False using "1.prems"(3) ux by simp
    qed
    have bound: "unat (drop_bit 7 x) < 2 ^ (64 - 7 * (i + 1))"
      using "1.prems"(3) unfolding power_split7 [OF i8]
      by (simp add: unat_drop_bit_eq drop_bit_eq_div unat_div less_mult_imp_div_less
          mult.commute)
    have IH: "Uvarint_loop (i + 1) acc' (s + 7) (PutUvarint (drop_bit 7 x) @ rest)
        = (acc' OR push_bit (s + 7) (drop_bit 7 x),
           int (i + 1) + int (length (PutUvarint (drop_bit 7 x))))" for acc'
      using "1.IH" [OF True, of "i + 1" "s + 7" acc'] i8 "1.prems"(2) bound by simp
    have unf: "PutUvarint x = (ucast x OR 0x80) # PutUvarint (drop_bit 7 x)"
      using True by (subst PutUvarint.simps) simp
    show ?thesis
      using i8 continuation_byte [of x] IH join_groups [of s x]
      by (simp add: unf or.assoc)
  next
    case False
    have unf: "PutUvarint x = [ucast x]"
      using False by (subst PutUvarint.simps) simp
    have lt: "x < 0x80" using False by simp
    have nine: "i = 9 \<Longrightarrow> \<not> 1 < (ucast x :: 8 word)"
      using "1.prems"(3) by (intro tenth_byte) simp
    show ?thesis
      using "1.prems"(1) final_byte [OF False] last_group [OF lt] nine
      by (simp add: unf)
  qed
qed

lemma PutUvarint_length_from:
  "i \<le> 9 \<Longrightarrow> unat x < 2 ^ (64 - 7 * i) \<Longrightarrow> i + length (PutUvarint x) \<le> 10"
proof (induction x arbitrary: i rule: PutUvarint.induct)
  case (1 x)
  show ?case
  proof (cases "0x80 \<le> x")
    case True
    then have ux: "128 \<le> unat x" by (simp add: word_le_nat_alt)
    have i8: "i \<le> 8"
    proof (rule ccontr)
      assume "\<not> i \<le> 8"
      then have "i = 9" using "1.prems"(1) by simp
      then show False using "1.prems"(2) ux by simp
    qed
    have bound: "unat (drop_bit 7 x) < 2 ^ (64 - 7 * (i + 1))"
      using "1.prems"(2) unfolding power_split7 [OF i8]
      by (simp add: unat_drop_bit_eq drop_bit_eq_div unat_div less_mult_imp_div_less
          mult.commute)
    have unf: "PutUvarint x = (ucast x OR 0x80) # PutUvarint (drop_bit 7 x)"
      using True by (subst PutUvarint.simps) simp
    show ?thesis
      using "1.IH" [OF True, of "i + 1"] i8 bound by (simp add: unf)
  next
    case False
    have unf: "PutUvarint x = [ucast x]"
      using False by (subst PutUvarint.simps) simp
    show ?thesis using "1.prems"(1) by (simp add: unf)
  qed
qed

lemma PutUvarint_length: "length (PutUvarint x) \<le> 10"
  using PutUvarint_length_from [of 0 x] unsigned_less [of x, where 'a = nat] by simp

lemma PutUvarint_nonempty: "PutUvarint x \<noteq> []"
  by (subst PutUvarint.simps) simp

lemma Uvarint_PutUvarint: "Uvarint (PutUvarint x @ rest) = (x, int (length (PutUvarint x)))"
  using Uvarint_loop_PutUvarint [of 0 0 x 0 rest] unsigned_less [of x, where 'a = nat]
  by (simp add: Uvarint_def)

lemma Varint_PutVarint: "Varint (PutVarint x @ rest) = (x, int (length (PutVarint x)))"
  using zigzag [of x] by (simp add: Varint_def PutVarint_def Uvarint_PutUvarint Let_def)

lemma PutVarint_length: "length (PutVarint x) \<le> 10"
  by (simp add: PutVarint_def Let_def PutUvarint_length)

lemma PutVarint_nonempty: "PutVarint x \<noteq> []"
  by (simp add: PutVarint_def Let_def PutUvarint_nonempty)

text \<open>The layout of the slot: tag, varint, value, and nothing else.\<close>

lemma encode_layout: "encode mv = mv_typ mv # PutVarint (mv_expiredAt mv) @ mv_value mv"
  using PutVarint_length [of "mv_expiredAt mv"]
  by (simp add: encode_def Let_def take_Suc_conv_app_nth)

lemma decode_encode: "decodeMemValue (encode mv) = Some mv"
proof -
  have "nat (1 + int (length (PutVarint (mv_expiredAt mv))))
          = Suc (length (PutVarint (mv_expiredAt mv)))"
    by simp
  then show ?thesis
    by (simp add: encode_layout decodeMemValue_def Varint_PutVarint)
qed

text \<open>
  C7. The value slot is one tag byte, then the zig-zag varint of the expiration, then the
  value bytes with no length prefix; decoding an encoded \<open>memValue\<close> gives back the same
  tag, the same expiration and the same value bytes.
\<close>

theorem C7_slot_layout_and_round_trip:
  "encode mv = [mv_typ mv] @ PutVarint (mv_expiredAt mv) @ mv_value mv
   \<and> (\<exists>mv'. decodeMemValue (encode mv) = Some mv'
        \<and> mv_typ mv' = mv_typ mv
        \<and> mv_expiredAt mv' = mv_expiredAt mv
        \<and> mv_value mv' = mv_value mv)"
proof
  show "encode mv = [mv_typ mv] @ PutVarint (mv_expiredAt mv) @ mv_value mv"
    by (simp add: encode_layout)
  show "\<exists>mv'. decodeMemValue (encode mv) = Some mv'
        \<and> mv_typ mv' = mv_typ mv
        \<and> mv_expiredAt mv' = mv_expiredAt mv
        \<and> mv_value mv' = mv_value mv"
    by (simp add: decode_encode)
qed

section \<open>The skip list\<close>

lemma bytesCompare_zero: "bytesCompare a b = 0 \<longleftrightarrow> a = b"
  by (simp add: bytesCompare_def)

lemma CompareKeys_same: "8 \<le> length k \<Longrightarrow> CompareKeys k k = Some 0"
  by (simp add: CompareKeys_def bytesCompare_def)

lemma CompareKeys_zero:
  assumes "CompareKeys k k' = Some 0"
  shows "k = k'"
proof -
  have l: "8 \<le> length k" "8 \<le> length k'"
    using assms by (auto simp: CompareKeys_def split: if_splits)
  have "take (length k - 8) k = take (length k' - 8) k'
        \<and> drop (length k - 8) k = drop (length k' - 8) k'"
    using assms l by (auto simp: CompareKeys_def Let_def bytesCompare_zero split: if_splits)
  then have "take (length k - 8) k @ drop (length k - 8) k
             = take (length k' - 8) k' @ drop (length k' - 8) k'"
    by simp
  then show ?thesis by (simp only: append_take_drop_id)
qed

lemma CompareKeys_Some: "CompareKeys k k' = Some c \<Longrightarrow> 8 \<le> length k \<and> 8 \<le> length k'"
  by (auto simp: CompareKeys_def split: if_splits)


lemma SameKey_same: "8 \<le> length k \<Longrightarrow> SameKey k k = Some True"
  by (simp add: SameKey_def ParseKey_def)

text \<open>What \<open>Put\<close> stores under a key, \<open>Get\<close> finds under that key.\<close>

lemma sklGet_sklPut:
  "8 \<le> length k \<Longrightarrow> sklPut k v s = Some s' \<Longrightarrow> sklGet s' k = Some (Some v)"
proof (induction s arbitrary: s')
  case Nil
  then show ?case by (auto simp: CompareKeys_same SameKey_same)
next
  case (Cons a s)
  obtain k' v' where a: "a = (k', v')" by (cases a)
  obtain c where c: "CompareKeys k k' = Some c"
    using Cons.prems(2) a by (cases "CompareKeys k k'") auto
  consider (eq) "c = 0" | (lt) "c < 0" | (gt) "0 < c" by linarith
  then show ?case
  proof cases
    case eq
    then have "k = k'" using c CompareKeys_zero by blast
    then show ?thesis
      using Cons.prems a c eq by (auto simp: SameKey_same)
  next
    case lt
    then show ?thesis
      using Cons.prems a c by (auto simp: CompareKeys_same SameKey_same)
  next
    case gt
    then obtain r where r: "sklPut k v s = Some r" "s' = (k', v') # r"
      using Cons.prems(2) a c by auto
    then show ?thesis
      using Cons.IH [OF Cons.prems(1) r(1)] c gt by simp
  qed
qed


lemma CompareKeys_versions:
  "CompareKeys otherVersion sampleKey = Some 1 \<and> CompareKeys sampleKey otherVersion = Some (- 1)"
  by (simp add: CompareKeys_def otherVersion_def sampleKey_def bytesCompare_def)

section \<open>Reading a memtable\<close>




lemma sampleKey_length: "length sampleKey = 9"
  by (simp add: sampleKey_def)


lemma sampleKey_found: "sklGet [(sampleKey, v)] sampleKey = Some (Some v)"
  by (simp add: CompareKeys_same SameKey_same sampleKey_length)

lemma sampleTable_get: "get now sampleTable key = Some (False, None)"
  by (simp add: get_def sampleTable_def)

lemma liveTable_skl:
  "mt_skl liveTable = [(sampleKey, \<lparr>vs_Meta = 0, vs_ExpiresAt = 0,
      vs_Value = encode \<lparr>mv_value = [118], mv_expiredAt = 0, mv_typ = 0\<rparr>\<rparr>)]"
  by (simp add: liveTable_def put_def Let_def sampleTable_def plainWrite_def word_sless_alt)

lemma tombstoneTable_skl:
  "mt_skl tombstoneTable = [(sampleKey, \<lparr>vs_Meta = 0, vs_ExpiresAt = 0,
      vs_Value = encode \<lparr>mv_value = [], mv_expiredAt = 0, mv_typ = TypeDelete\<rparr>\<rparr>)]"
  by (simp add: tombstoneTable_def delete_def put_def Let_def sampleTable_def plainWrite_def
      word_sless_alt)


lemma liveTable_get: "get 10 liveTable sampleKey = Some (False, Some [118])"
  by (simp add: get_def liveTable_skl sampleKey_found decode_encode TypeDelete_def
      word_sless_alt del: sklGet.simps)

lemma tombstoneTable_get: "get 10 tombstoneTable sampleKey = Some (True, None)"
  by (simp add: get_def tombstoneTable_skl sampleKey_found decode_encode del: sklGet.simps)


text \<open>
  The library's lookup is by user key and version: a read of the same user key at a
  version that sorts before the stored one finds the stored entry, and one that sorts after
  it finds nothing; a key of fewer than eight bytes makes the read of a non-empty memtable
  panic.
\<close>

lemma get_other_version:
  "get 10 liveTable otherVersion = Some (False, None)
   \<and> get 10 (snd (the (put None None sampleTable otherVersion [118] False plainWrite))) sampleKey
       = Some (False, Some [118])
   \<and> get 10 liveTable [107] = None"
  by (simp add: get_def liveTable_skl put_def Let_def sampleTable_def plainWrite_def
      CompareKeys_def SameKey_def ParseKey_def bytesCompare_def sampleKey_def otherVersion_def
      decode_encode TypeDelete_def word_sless_alt)



section \<open>The order of the tiers\<close>

lemma getMemTables_loop:
  "k \<le> length xs \<Longrightarrow>
   foldl (\<lambda>tables i. tables @ [xs ! nat (int (length xs) - 1 - int i)]) acc [0 ..< k]
     = acc @ map (\<lambda>i. xs ! (length xs - Suc i)) [0 ..< k]"
proof (induction k)
  case 0
  then show ?case by simp
next
  case (Suc k)
  then have "nat (int (length xs) - 1 - int k) = length xs - Suc k" by simp
  then show ?case using Suc by simp
qed

lemma rev_by_index: "map (\<lambda>i. xs ! (length xs - Suc i)) [0 ..< length xs] = rev xs"
  by (rule nth_equalityI) (simp_all add: rev_nth)

lemma getMemTables_eq: "getMemTables db = db_activeMem db # rev (db_immuMems db)"
  using getMemTables_loop [of "length (db_immuMems db)" "db_immuMems db" "[db_activeMem db]"]
  by (simp add: getMemTables_def Let_def rev_by_index)

text \<open>A rotation puts the new active memtable in front of all the tiers there were.\<close>

lemma rotation_pushes_front:
  assumes "waitMemtableSpace isFull opened SendAccepted db = Some (None, db')"
    and "isFull (db_activeMem db)"
  shows "getMemTables db' = db_activeMem db' # getMemTables db"
  using assms
  by (auto simp: waitMemtableSpace_def Let_def getMemTables_eq split: sum.splits option.splits)

lemma walk_skips_misses:
  "(\<forall>t \<in> set earlier. get now t key = Some (False, None)) \<Longrightarrow>
   walkMemTables now (earlier @ rest) key = walkMemTables now rest key"
  by (induction earlier) simp_all

lemma walk_stops_at_hit:
  "get now table key = Some (True, None) \<or> (\<exists>v. get now table key = Some (False, Some v)) \<Longrightarrow>
   walkMemTables now (table # later) key = walkMemTables now [table] key"
  by auto

text \<open>
  C1. \<open>getMemTables\<close> lists the active memtable first, then the immutable memtables from
  the last appended to the first; a rotation puts the new active memtable in front of that
  list, so the list runs from newest to oldest; and a read that walks the list answers from
  the first memtable that holds the key, whatever the later ones hold.
\<close>

theorem C1_memtables_newest_first:
  "getMemTables db = db_activeMem db # rev (db_immuMems db)
   \<and> (\<forall>i. i < length (db_immuMems db) \<longrightarrow>
         getMemTables db ! Suc i = db_immuMems db ! (length (db_immuMems db) - 1 - i))
   \<and> (\<forall>isFull opened db'.
         isFull (db_activeMem db)
         \<and> waitMemtableSpace isFull opened SendAccepted db = Some (None, db')
         \<longrightarrow> getMemTables db' = db_activeMem db' # getMemTables db)
   \<and> (\<forall>earlier table later.
         getMemTables db = earlier @ table # later
         \<and> (\<forall>t \<in> set earlier. get now t key = Some (False, None))
         \<and> (get now table key = Some (True, None)
              \<or> (\<exists>v. get now table key = Some (False, Some v)))
         \<longrightarrow> walkMemTables now (getMemTables db) key = walkMemTables now [table] key)"
proof (intro conjI allI impI)
  show "getMemTables db = db_activeMem db # rev (db_immuMems db)" by (rule getMemTables_eq)
next
  fix i assume "i < length (db_immuMems db)"
  then show "getMemTables db ! Suc i = db_immuMems db ! (length (db_immuMems db) - 1 - i)"
    by (simp add: getMemTables_eq rev_nth)
next
  fix isFull opened db'
  assume "isFull (db_activeMem db)
         \<and> waitMemtableSpace isFull opened SendAccepted db = Some (None, db')"
  then show "getMemTables db' = db_activeMem db' # getMemTables db"
    using rotation_pushes_front by blast
next
  fix earlier table later
  assume a: "getMemTables db = earlier @ table # later
         \<and> (\<forall>t \<in> set earlier. get now t key = Some (False, None))
         \<and> (get now table key = Some (True, None)
              \<or> (\<exists>v. get now table key = Some (False, Some v)))"
  then have "walkMemTables now (getMemTables db) key = walkMemTables now (table # later) key"
    using walk_skips_misses [of earlier now key "table # later"] by simp
  also have "\<dots> = walkMemTables now [table] key"
    using a walk_stops_at_hit [of now table key later] by blast
  finally show "walkMemTables now (getMemTables db) key = walkMemTables now [table] key" .
qed

lemma sampleDB_tiers: "getMemTables sampleDB = [liveTable, expiredTable, tombstoneTable]"
  by (simp add: getMemTables_def sampleDB_def Let_def upt_rec nat_diff_distrib)

text \<open>
  A database with one active and two immutable memtables that all hold the sample key: the tiers
  in order, the walk answering from the active memtable, and the tiers after a rotation.
\<close>

theorem C1_memtables_newest_first_witness:
  "getMemTables sampleDB = [liveTable, expiredTable, tombstoneTable]
   \<and> getMemTables sampleDB ! Suc 0 = expiredTable
   \<and> walkMemTables 10 (getMemTables sampleDB) sampleKey = Some (Found [118])
   \<and> getMemTables (snd (the (waitMemtableSpace (\<lambda>t. True) (Inr []) SendAccepted sampleDB)))
       = [\<lparr>mt_wal = Some [], mt_skl = [], mt_opts = sampleOptions\<lparr>mo_tableID := 2\<rparr>\<rparr>,
          liveTable, expiredTable, tombstoneTable]"
proof -
  have order: "getMemTables sampleDB = [liveTable, expiredTable, tombstoneTable]"
    using C1_memtables_newest_first [of sampleDB 10 sampleKey, THEN conjunct1]
    by (simp add: sampleDB_def)
  have second: "getMemTables sampleDB ! Suc 0 = expiredTable"
    using C1_memtables_newest_first [of sampleDB 10 sampleKey, THEN conjunct2, THEN conjunct1,
        rule_format, of 0]
    by (simp add: sampleDB_def)
  have walk: "walkMemTables 10 (getMemTables sampleDB) sampleKey = Some (Found [118])"
    using C1_memtables_newest_first [of sampleDB 10 sampleKey, THEN conjunct2, THEN conjunct2,
        THEN conjunct2, rule_format, of "[]" liveTable "[expiredTable, tombstoneTable]"]
      order liveTable_get
    by simp
  have opts: "mt_opts liveTable = sampleOptions"
    by (simp add: liveTable_def put_def Let_def sampleTable_def plainWrite_def)
  have rot: "waitMemtableSpace (\<lambda>t. True) (Inr []) SendAccepted sampleDB
      = Some (None, sampleDB\<lparr>db_flushChan := [liveTable],
                        db_immuMems := [tombstoneTable, expiredTable, liveTable],
                        db_activeMem := \<lparr>mt_wal = Some [], mt_skl = [],
                                          mt_opts = sampleOptions\<lparr>mo_tableID := 2\<rparr>\<rparr>\<rparr>)"
    by (simp add: waitMemtableSpace_def Let_def openMemtable_def sampleDB_def opts
        sampleOptions_def)
  have rotated: "getMemTables (snd (the (waitMemtableSpace (\<lambda>t. True) (Inr []) SendAccepted sampleDB)))
       = [\<lparr>mt_wal = Some [], mt_skl = [], mt_opts = sampleOptions\<lparr>mo_tableID := 2\<rparr>\<rparr>,
          liveTable, expiredTable, tombstoneTable]"
    using C1_memtables_newest_first [of sampleDB 10 sampleKey, THEN conjunct2, THEN conjunct2,
        THEN conjunct1, rule_format, of "\<lambda>t. True" "Inr []", OF conjI [OF TrueI rot]]
      order
    by (simp add: rot)
  show ?thesis using order second walk rotated by simp
qed

section \<open>Writing to a memtable\<close>

text \<open>
  C4. When the write-ahead log is in use and its append fails, \<open>memtable.put\<close> returns that
  error and the memtable, its skip list included, is as before: nothing is inserted or
  overwritten for the key.
\<close>

theorem C4_wal_failure_leaves_skip_list:
  assumes "\<not> eo_DisableWal opts" and "mt_wal mt \<noteq> None" and "wr = Some err"
  shows "put wr sr mt key val deleted opts = Some (Some err, mt)
         \<and> mt_skl (snd (the (put wr sr mt key val deleted opts))) = mt_skl mt
         \<and> sklGet (mt_skl (snd (the (put wr sr mt key val deleted opts)))) key
             = sklGet (mt_skl mt) key"
  using assms by (simp add: put_def Let_def)

text \<open>With a successful append, and a key of eight bytes or more, the entry is installed.\<close>

lemma put_installs:
  assumes "wr = None" and "sr = None" and "8 \<le> length key"
    and "put wr sr mt key val deleted opts = Some (e, mt')"
  shows "e = None \<and> (\<exists>vs. sklGet (mt_skl mt') key = Some (Some vs))"
  using assms sklGet_sklPut [of key]
  by (auto simp: put_def Let_def split: if_splits)

text \<open>
  An overwrite of the sample key whose append fails: the old value is still read.
\<close>

theorem C4_wal_failure_leaves_skip_list_witness:
  "put (Some (ErrExternal 1)) None liveTable sampleKey [119] False plainWrite
     = Some (Some (ErrExternal 1), liveTable)
   \<and> get 10 (snd (the (put (Some (ErrExternal 1)) None liveTable sampleKey [119] False
                            plainWrite))) sampleKey
       = Some (False, Some [118])"
proof -
  have w: "mt_wal liveTable \<noteq> None"
    by (simp add: liveTable_def put_def Let_def sampleTable_def plainWrite_def)
  have d: "\<not> eo_DisableWal plainWrite" by (simp add: plainWrite_def)
  show ?thesis
    using C4_wal_failure_leaves_skip_list [where opts = plainWrite and mt = liveTable
        and wr = "Some (ErrExternal 1)" and err = "ErrExternal 1" and sr = None
        and key = sampleKey and val = "[119]" and deleted = False] d w liveTable_get
    by simp
qed

section \<open>Waiting for memtable space\<close>

text \<open>
  C9. With a full active memtable, when the timer fires before the flush channel takes the
  memtable, \<open>waitMemtableSpace\<close> returns \<open>ErrWaitMemtableSpaceTimeOut\<close> and the database is
  as before: the same active memtable and the same immutable memtables.
\<close>

theorem C9_timeout_leaves_database:
  assumes "isFull (db_activeMem db)"
  shows "waitMemtableSpace isFull opened TimerFired db
           = Some (Some ErrWaitMemtableSpaceTimeOut, db)
         \<and> db_activeMem (snd (the (waitMemtableSpace isFull opened TimerFired db)))
             = db_activeMem db
         \<and> db_immuMems (snd (the (waitMemtableSpace isFull opened TimerFired db)))
             = db_immuMems db"
  using assms by (simp add: waitMemtableSpace_def)

text \<open>
  The timeout on the sample database.
\<close>

theorem C9_timeout_leaves_database_witness:
  "waitMemtableSpace (\<lambda>t. True) (Inr []) TimerFired sampleDB
     = Some (Some ErrWaitMemtableSpaceTimeOut, sampleDB)
   \<and> getMemTables (snd (the (waitMemtableSpace (\<lambda>t. True) (Inr []) TimerFired sampleDB)))
       = [liveTable, expiredTable, tombstoneTable]"
  using C9_timeout_leaves_database [of "\<lambda>t. True" sampleDB "Inr []"] sampleDB_tiers
  by simp

section \<open>The compaction signal\<close>

text \<open>Rounding to the nearest: the result is within half a unit of the last place.\<close>

lemma roundShift_nearest: "2 * \<bar>int (roundShift m k * 2 ^ k) - int m\<bar> \<le> int (2 ^ k)"
proof (cases "k = 0")
  case True
  then show ?thesis by (simp add: roundShift_def)
next
  case False
  define q where "q = m div 2 ^ k"
  define r where "r = m mod 2 ^ k"
  define p where "p = (2::nat) ^ (k - 1)"
  define X where "X = int (q * 2 ^ k)"
  have "m = q * 2 ^ k + r" unfolding q_def r_def by (rule div_mult_mod_eq [symmetric])
  then have m: "int m = X + int r" unfolding X_def by (simp only: of_nat_add)
  have w: "(2::nat) ^ k = 2 * p" unfolding p_def using False by (cases k) simp_all
  have r: "int r < 2 * int p"
  proof -
    have "r < 2 ^ k" by (simp add: r_def)
    then show ?thesis unfolding w by simp
  qed
  have up: "int ((q + 1) * 2 ^ k) = X + 2 * int p"
  proof -
    have "(q + 1) * 2 ^ k = q * 2 ^ k + 2 ^ k" by (simp add: algebra_simps)
    then have "int ((q + 1) * 2 ^ k) = X + int (2 ^ k)" unfolding X_def by (simp only: of_nat_add)
    then show ?thesis unfolding w by simp
  qed
  have W: "int (2 ^ k) = 2 * int p" unfolding w by simp
  show ?thesis
  proof (cases "p < r \<or> (r = p \<and> odd q)")
    case True
    then have rs: "roundShift m k = q + 1"
      using False by (simp add: roundShift_def Let_def q_def r_def p_def)
    have "int p \<le> int r" using True by auto
    then show ?thesis unfolding rs up W m using r by (simp add: abs_if)
  next
    case False2: False
    then have rs: "roundShift m k = q"
      using False by (simp add: roundShift_def Let_def q_def r_def p_def)
    have "int r \<le> int p" using False2 by auto
    then show ?thesis unfolding rs W m X_def [symmetric] by (simp add: abs_if)
  qed
qed

text \<open>A number that fits the format is not changed by rounding.\<close>

lemma roundFloat32_exact:
  "bitLen m \<le> 24 \<Longrightarrow> - 149 \<le> e \<Longrightarrow> roundFloat32 m e = \<lparr>f_man = m, f_exp = e\<rparr>"
  by (simp add: roundFloat32_def Let_def)

text \<open>The conversion to \<open>uint32\<close> cuts the fraction off.\<close>

lemma truncation_is_floor:
  "int (if 0 \<le> f_exp f then f_man f * 2 ^ nat (f_exp f)
        else f_man f div 2 ^ nat (- f_exp f)) = \<lfloor>valueOf f\<rfloor>"
proof (cases "0 \<le> f_exp f")
  case True
  then show ?thesis by (simp only: valueOf_def if_True floor_of_nat)
next
  case False
  have "\<lfloor>real (f_man f) / 2 ^ nat (- f_exp f)\<rfloor>
          = \<lfloor>real (f_man f) / real (2 ^ nat (- f_exp f))\<rfloor>"
    by simp
  also have "\<dots> = int (f_man f div 2 ^ nat (- f_exp f))"
    by (rule floor_divide_of_nat_eq)
  finally show ?thesis using False by (simp only: valueOf_def if_False)
qed

lemma valueOf_nonneg: "0 \<le> valueOf f"
  by (simp add: valueOf_def)

lemma uint32_of_float32_unat:
  assumes "valueOf f < 2 ^ 32"
  shows "int (unat (uint32_of_float32 f)) = \<lfloor>valueOf f\<rfloor>"
proof -
  define n where "n = (if 0 \<le> f_exp f then f_man f * 2 ^ nat (f_exp f)
                       else f_man f div 2 ^ nat (- f_exp f))"
  have fl: "int n = \<lfloor>valueOf f\<rfloor>" unfolding n_def by (rule truncation_is_floor)
  have "\<lfloor>valueOf f\<rfloor> < 2 ^ 32" using assms by (simp add: floor_less_iff)
  then have "int n < 4294967296" using fl by simp
  then have "n < 4294967296" by linarith
  then have "n < 2 ^ 32" by simp
  then have "unat (word_of_nat n :: 32 word) = n"
    by (simp add: unat_of_nat take_bit_eq_mod)
  then show ?thesis using fl by (simp add: uint32_of_float32_def n_def)
qed

lemma upper_test:
  assumes "valueOf (mulFloat32 (float32_of_uint32 T) rate) < 2 ^ 32"
  shows "threshold T rate \<le> U
           \<longleftrightarrow> \<lfloor>valueOf (mulFloat32 (float32_of_uint32 T) rate)\<rfloor> \<le> int (unat U)"
proof -
  have "threshold T rate \<le> U \<longleftrightarrow> unat (threshold T rate) \<le> unat U" by (rule word_le_nat_alt)
  also have "\<dots> \<longleftrightarrow> int (unat (threshold T rate)) \<le> int (unat U)"
    by (simp only: of_nat_le_iff)
  also have "\<dots> \<longleftrightarrow> \<lfloor>valueOf (mulFloat32 (float32_of_uint32 T) rate)\<rfloor> \<le> int (unat U)"
    by (simp only: threshold_def uint32_of_float32_unat [OF assms])
  finally show ?thesis .
qed

lemma lower_test:
  assumes "valueOf (mulFloat32 (float32_of_uint32 T) rate) < 2 ^ 32"
  shows "threshold T rate < U
           \<longleftrightarrow> valueOf (mulFloat32 (float32_of_uint32 T) rate) < real (unat U)"
proof -
  have "threshold T rate < U \<longleftrightarrow> unat (threshold T rate) < unat U" by (rule word_less_nat_alt)
  also have "\<dots> \<longleftrightarrow> int (unat (threshold T rate)) < int (unat U)"
    by (simp only: of_nat_less_iff)
  also have "\<dots> \<longleftrightarrow> \<lfloor>valueOf (mulFloat32 (float32_of_uint32 T) rate)\<rfloor> < int (unat U)"
    by (simp only: threshold_def uint32_of_float32_unat [OF assms])
  also have "\<dots> \<longleftrightarrow> valueOf (mulFloat32 (float32_of_uint32 T) rate) < of_int (int (unat U))"
    by (rule floor_less_iff)
  also have "\<dots> \<longleftrightarrow> valueOf (mulFloat32 (float32_of_uint32 T) rate) < real (unat U)"
    by (simp only: of_int_of_nat_eq)
  finally show ?thesis .
qed

text \<open>
  Products on ten records: with rates 0.25 and 0.75 they are exact, 2.5 and 7.5; with the
  float32 nearest to 0.9 the exact product lies below 9 and rounds to 9. A counter above
  \<open>2 ^ 24\<close> is rounded before it is multiplied.
\<close>

lemma sample_products:
  "mulFloat32 (float32_of_uint32 10) quarter = \<lparr>f_man = 10, f_exp = - 2\<rparr>
   \<and> mulFloat32 (float32_of_uint32 10) threeQuarters = \<lparr>f_man = 30, f_exp = - 2\<rparr>
   \<and> mulFloat32 (float32_of_uint32 10) ninetyPercent = \<lparr>f_man = 9437184, f_exp = - 20\<rparr>
   \<and> float32_of_uint32 16777217 = \<lparr>f_man = 8388608, f_exp = 1\<rparr>"
  by (simp add: mulFloat32_def float32_of_uint32_def roundFloat32_def roundShift_def Let_def
      bitLen.simps quarter_def threeQuarters_def ninetyPercent_def)

lemma sample_thresholds:
  "threshold 10 quarter = 2 \<and> threshold 10 threeQuarters = 7 \<and> threshold 10 ninetyPercent = 9"
  using sample_products by (simp add: threshold_def uint32_of_float32_def)

text \<open>
  The rule as the specification words it and the code part at 7 deprecated records of 10
  with rates 0.25 and 0.75: \<open>r_hi = 7.5\<close> is not reached, so the rule sends the lower
  signal, while the code compares with \<open>uint32(7.5) = 7\<close> and sends the upper one.
\<close>

theorem C5_signal_counterexample:
  "flushSignal completedSteps True 7 10 quarter threeQuarters = Some ArriveUpperThreshold
   \<and> signalAsSpecified 7 10 (valueOf quarter) (valueOf threeQuarters)
       = Some ArriveLowerThreshold"
  using sample_thresholds
  by (simp add: flushSignal_def flushCompleted_def completedSteps_def
      signalAsSpecified_def valueOf_def quarter_def threeQuarters_def)

text \<open>
  C5, amended. After a flush that ran to its end with auto-compaction on, with \<open>p_lo\<close> and
  \<open>p_hi\<close> the float32 products \<open>float32(T) \<cdot> lower_rate\<close> and \<open>float32(T) \<cdot> upper_rate\<close>
  (both below \<open>2 ^ 32\<close>): if \<open>U \<ge> \<lfloor>p_hi\<rfloor>\<close> the upper signal is sent; else if \<open>U > p_lo\<close>
  (which for a whole \<open>U\<close> is \<open>U > \<lfloor>p_lo\<rfloor>\<close>) the lower signal; else none.
\<close>

theorem C5_signal_on_truncated_thresholds:
  assumes "flushCompleted st"
    and "isFloat32 lowerRate" and "isFloat32 upperRate"
    and "valueOf (mulFloat32 (float32_of_uint32 T) lowerRate) < 2 ^ 32"
    and "valueOf (mulFloat32 (float32_of_uint32 T) upperRate) < 2 ^ 32"
  shows "flushSignal st True U T lowerRate upperRate =
     (if \<lfloor>valueOf (mulFloat32 (float32_of_uint32 T) upperRate)\<rfloor> \<le> int (unat U)
        then Some ArriveUpperThreshold
      else if valueOf (mulFloat32 (float32_of_uint32 T) lowerRate) < real (unat U)
        then Some ArriveLowerThreshold
      else None)"
  using assms(1) upper_test [OF assms(5), of U] lower_test [OF assms(4), of U]
  by (simp only: flushSignal_def Let_def) simp

lemma no_signal_without_autoCompact: "flushSignal st False U T lowerRate upperRate = None"
  by (simp add: flushSignal_def)

lemma no_signal_after_failed_step:
  "\<not> flushCompleted st \<Longrightarrow> flushSignal st autoCompact U T lowerRate upperRate = None"
  by (simp add: flushSignal_def)

text \<open>
  Ten records: the signal at 7, 6, 3 and 2 deprecated records with rates 0.25 and 0.75, and
  at 9 and 8 with upper rate float32(0.9), whose product rounds up to 9.
\<close>

theorem C5_signal_on_truncated_thresholds_witness:
  "flushSignal completedSteps True 7 10 quarter threeQuarters = Some ArriveUpperThreshold
   \<and> flushSignal completedSteps True 6 10 quarter threeQuarters = Some ArriveLowerThreshold
   \<and> flushSignal completedSteps True 3 10 quarter threeQuarters = Some ArriveLowerThreshold
   \<and> flushSignal completedSteps True 2 10 quarter threeQuarters = None
   \<and> flushSignal completedSteps True 9 10 quarter ninetyPercent = Some ArriveUpperThreshold
   \<and> flushSignal completedSteps True 8 10 quarter ninetyPercent = Some ArriveLowerThreshold"
proof -
  have c: "flushCompleted completedSteps" by (simp add: flushCompleted_def completedSteps_def)
  have f: "isFloat32 quarter" "isFloat32 threeQuarters" "isFloat32 ninetyPercent"
    by (simp_all add: isFloat32_def quarter_def threeQuarters_def ninetyPercent_def)
  have v: "valueOf (mulFloat32 (float32_of_uint32 10) quarter) = 5 / 2"
    "valueOf (mulFloat32 (float32_of_uint32 10) threeQuarters) = 15 / 2"
    "valueOf (mulFloat32 (float32_of_uint32 10) ninetyPercent) = 9"
    using sample_products by (simp_all add: valueOf_def)
  have b: "valueOf (mulFloat32 (float32_of_uint32 10) quarter) < 2 ^ 32"
    "valueOf (mulFloat32 (float32_of_uint32 10) threeQuarters) < 2 ^ 32"
    "valueOf (mulFloat32 (float32_of_uint32 10) ninetyPercent) < 2 ^ 32"
    by (simp_all add: v)
  show ?thesis
    using C5_signal_on_truncated_thresholds [OF c f(1) f(2) b(1) b(2), of 7]
      C5_signal_on_truncated_thresholds [OF c f(1) f(2) b(1) b(2), of 6]
      C5_signal_on_truncated_thresholds [OF c f(1) f(2) b(1) b(2), of 3]
      C5_signal_on_truncated_thresholds [OF c f(1) f(2) b(1) b(2), of 2]
      C5_signal_on_truncated_thresholds [OF c f(1) f(3) b(1) b(3), of 9]
      C5_signal_on_truncated_thresholds [OF c f(1) f(3) b(1) b(3), of 8]
    by (simp add: v)
qed

section \<open>The counters file\<close>

lemma Uint32_PutUint32: "Uint32 (PutUint32 v) = v"
proof (rule bit_word_eqI)
  fix n assume n: "n < LENGTH(32)"
  consider "n < 8" | "8 \<le> n" "n < 16" | "16 \<le> n" "n < 24" | "24 \<le> n" by linarith
  then show "bit (Uint32 (PutUint32 v)) n = bit v n"
  proof cases
    case 1
    then show ?thesis by (auto simp: PutUint32_def Uint32_def bit_simps)
  next
    case 2
    then show ?thesis by (auto simp: PutUint32_def Uint32_def bit_simps)
  next
    case 3
    then show ?thesis by (auto simp: PutUint32_def Uint32_def bit_simps)
  next
    case 4
    then show ?thesis using n by (auto simp: PutUint32_def Uint32_def bit_simps)
  qed
qed

text \<open>The four bytes are the base-256 digits of the number, least significant first.\<close>

lemma PutUint32_little_endian:
  assumes "PutUint32 v = [b0, b1, b2, b3]"
  shows "unat v = unat b0 + 256 * unat b1 + 65536 * unat b2 + 16777216 * unat b3"
proof -
  have lt: "unat v < 4294967296" using unsigned_less [of v, where 'a = nat] by simp
  have b: "unat b0 = unat v mod 256" "unat b1 = unat v div 256 mod 256"
     "unat b2 = unat v div 65536 mod 256" "unat b3 = unat v div 16777216 mod 256"
    using assms
    by (auto simp: PutUint32_def unsigned_ucast_eq take_bit_eq_mod unat_drop_bit_eq
        drop_bit_eq_div unat_div)
  have m1: "unat v mod 65536 = 256 * (unat v div 256 mod 256) + unat v mod 256"
    using mod_mult2_eq [of "unat v" 256 256] by simp
  have m2: "unat v mod 16777216 = 65536 * (unat v div 65536 mod 256) + unat v mod 65536"
    using mod_mult2_eq [of "unat v" 65536 256] by simp
  have m3: "unat v mod 4294967296
              = 16777216 * (unat v div 16777216 mod 256) + unat v mod 16777216"
    using mod_mult2_eq [of "unat v" 16777216 256] by simp
  have "unat v mod 4294967296 = unat v" using lt by simp
  then show ?thesis unfolding b using m1 m2 m3 by linarith
qed

lemma length_PutUint32: "length (PutUint32 v) = 4"
  by (simp add: PutUint32_def)

lemma binaryRead_PutUint32: "binaryRead (PutUint32 v @ rest) = Inr (v, rest)"
proof -
  have "PutUint32 v \<noteq> []" by (simp add: PutUint32_def)
  then show ?thesis
    by (simp add: binaryRead_def length_PutUint32 Uint32_PutUint32)
qed

lemma Close_clean:
  assumes "Close st dep tot file = (None, file')"
  shows "file' = Some (PutUint32 dep @ PutUint32 tot)"
  using assms by (simp add: Close_def Let_def split: option.splits)

text \<open>
  C8. A \<open>Close\<close> that returns no error leaves the DEPMETA file with exactly 8 bytes, the
  deprecated count and then the total count, each as four bytes with the least significant
  first, equal to the counters of the value log; and \<open>Open\<close> reads the same two counters
  back from it, in that order.
\<close>

theorem C8_counters_file_round_trip:
  assumes "Close st deprecatedNumber totalNumber depMeta = (None, depMeta')"
  shows "depMeta' = Some (PutUint32 deprecatedNumber @ PutUint32 totalNumber)
     \<and> length (PutUint32 deprecatedNumber @ PutUint32 totalNumber) = 8
     \<and> (\<forall>b0 b1 b2 b3 b4 b5 b6 b7. depMeta' = Some [b0, b1, b2, b3, b4, b5, b6, b7] \<longrightarrow>
          unat deprecatedNumber = unat b0 + 256 * unat b1 + 65536 * unat b2 + 16777216 * unat b3
          \<and> unat totalNumber = unat b4 + 256 * unat b5 + 65536 * unat b6 + 16777216 * unat b7)
     \<and> Open_deprecatedMeta depMeta' = (Inr (deprecatedNumber, totalNumber), depMeta')"
proof -
  have f: "depMeta' = Some (PutUint32 deprecatedNumber @ PutUint32 totalNumber)"
    using assms by (rule Close_clean)
  have "binaryRead (PutUint32 totalNumber) = Inr (totalNumber, [])"
    using binaryRead_PutUint32 [of totalNumber "[]"] by simp
  then have o: "Open_deprecatedMeta depMeta' = (Inr (deprecatedNumber, totalNumber), depMeta')"
    by (simp add: f Open_deprecatedMeta_def binaryRead_PutUint32)
  have le: "unat deprecatedNumber = unat b0 + 256 * unat b1 + 65536 * unat b2 + 16777216 * unat b3
          \<and> unat totalNumber = unat b4 + 256 * unat b5 + 65536 * unat b6 + 16777216 * unat b7"
    if "depMeta' = Some [b0, b1, b2, b3, b4, b5, b6, b7]" for b0 b1 b2 b3 b4 b5 b6 b7
  proof -
    have "PutUint32 deprecatedNumber @ PutUint32 totalNumber = [b0, b1, b2, b3] @ [b4, b5, b6, b7]"
      using that f by simp
    then have "PutUint32 deprecatedNumber = [b0, b1, b2, b3] \<and> PutUint32 totalNumber = [b4, b5, b6, b7]"
      by (subst (asm) append_eq_append_conv) (simp_all add: length_PutUint32)
    then show ?thesis using PutUint32_little_endian by blast
  qed
  show ?thesis using f o le by (simp add: length_PutUint32)
qed

text \<open>
  Counters 258 and 65536.
\<close>

theorem C8_counters_file_round_trip_witness:
  "Close cleanClose 258 65536 (Some []) = (None, Some [2, 1, 0, 0, 0, 0, 1, 0])
   \<and> Open_deprecatedMeta (Some [2, 1, 0, 0, 0, 0, 1, 0]) = (Inr (258, 65536), Some [2, 1, 0, 0, 0, 0, 1, 0])"
proof -
  have c: "Close cleanClose 258 65536 (Some []) = (None, Some [2, 1, 0, 0, 0, 0, 1, 0])"
    by (simp add: Close_def cleanClose_def PutUint32_def drop_bit_eq_div)
  show ?thesis using C8_counters_file_round_trip [OF c] c by blast
qed

section \<open>Flushing expired entries\<close>

text \<open>
  Entries written by \<open>memtable.put\<close> carry no tombstone tag in \<open>Meta\<close>; the loop sends every
  one of them to the log records, under its key without the last eight bytes.
\<close>

lemma divideRecords_no_tombstone_tag:
  "(\<forall>(sklKey, valueStruct) \<in> set s.
       8 \<le> length sklKey \<and> vs_Meta valueStruct \<noteq> LogRecordDeleted) \<Longrightarrow>
   \<exists>logRecords'.
     divideRecords newUid s deletedKeys logRecords = Some (deletedKeys, logRecords')
     \<and> map vr_key logRecords'
          = map vr_key logRecords @ map (\<lambda>(sklKey, valueStruct). take (length sklKey - 8) sklKey) s"
proof (induction s arbitrary: logRecords)
  case Nil
  show ?case by simp
next
  case (Cons a s)
  obtain sklKey valueStruct where a: "a = (sklKey, valueStruct)" by (cases a)
  have h: "8 \<le> length sklKey" "vs_Meta valueStruct \<noteq> LogRecordDeleted"
    using Cons.prems a by auto
  have rest: "\<forall>(sklKey, valueStruct) \<in> set s.
       8 \<le> length sklKey \<and> vs_Meta valueStruct \<noteq> LogRecordDeleted"
    using Cons.prems by auto
  show ?case
    using Cons.IH [OF rest, of "logRecords @ [\<lparr>vr_key = take (length sklKey - 8) sklKey,
        vr_value = vs_Value valueStruct, vr_uid = newUid (length logRecords)\<rparr>]"] h a
    by (auto simp: ParseKey_def)
qed


section \<open>Compaction: which records are kept\<close>

lemma deprecatedBody_BTree:
  "ce_IndexType env = BTree \<Longrightarrow>
   deprecatedBody env part count record pos validRecords
     = rewriteBatch env count
         (if ce_isDeprecated env part (vr_uid record) then validRecords
          else validRecords @ [record])"
  by (simp add: deprecatedBody_def Let_def)

lemma deprecatedBody_Hash:
  "ce_IndexType env = Hash \<Longrightarrow> ce_indexGet env (vr_key record) = Inr found \<Longrightarrow>
   ce_hashTableKeyPos env (vr_key record) = Some kp \<Longrightarrow>
   deprecatedBody env part count record pos validRecords
     = rewriteBatch env count
         (validRecords
          @ (if ce_isDeprecated env part (vr_uid record) then [] else [record])
          @ (if kp_partition kp = word_of_nat part \<and> kp_position kp = pos then [record] else []))"
  by (simp add: deprecatedBody_def Let_def)

text \<open>
  C6. In \<open>CompactWithDeprecatedtable\<close> a record is kept exactly when it is not deprecated
  and, for the hash index, also passes the position check, and it is appended once. With the
  hash index the code appends on either test: a record that passes both is handed to
  \<open>rewriteValidRecords\<close> twice, and a record that is not deprecated but whose indexed
  position is another one is kept all the same.
\<close>

theorem C6_hash_index_appends_on_either_test:
  "CompactWithDeprecatedtable (hashEnv samplePosition) 0 [Chunk sampleRecord samplePosition]
     = (Returned None,
        [OpenTemp, RewriteValidRecords [sampleRecord, sampleRecord],
         DeleteOld, CloseNew, RenameToLive, OpenLive])
   \<and> CompactWithDeprecatedtable (hashEnv stalePosition) 0 [Chunk sampleRecord samplePosition]
     = (Returned None,
        [OpenTemp, RewriteValidRecords [sampleRecord],
         DeleteOld, CloseNew, RenameToLive, OpenLive])"
  by (simp add: CompactWithDeprecatedtable_def finishPartition_def replaceVlog_def
      deprecatedBody_def rewriteBatch_def hashEnv_def sampleRecord_def samplePosition_def
      stalePosition_def Let_def)

section \<open>Compaction: the order of delete and rename\<close>














end
